theory Spec2Isabelle
  imports Main "HOL-Library.Word"
begin

section \<open>Data model (cli.h)\<close>

text \<open>
  A \<open>char\<close> is a byte. String literals are kept as the list of their characters, without
  the terminating NUL; a buffer is the list of its bytes, and the C string it holds is the
  part before its first NUL.
\<close>

type_synonym byte = "8 word"

definition bytes_of :: "string \<Rightarrow> byte list" where
  "bytes_of str = map (\<lambda>c. of_nat (of_char c)) str"

definition CLI_RX_BUFFER_SIZE :: nat where "CLI_RX_BUFFER_SIZE = 256"
definition CLI_TX_BUFFER_SIZE :: nat where "CLI_TX_BUFFER_SIZE = 256"

definition CLI_END_CHAR :: byte where "CLI_END_CHAR = 0x0D"
definition CLI_BS_CHAR :: byte where "CLI_BS_CHAR = 0x7F"
definition CLI_NULL_CHAR :: byte where "CLI_NULL_CHAR = 0x00"

definition PASSWORD :: "byte list" where
  "PASSWORD = bytes_of ''1234''"
definition PROMPT_PASSWORD :: "byte list" where
  "PROMPT_PASSWORD = bytes_of ''Enter password:''"
definition AUTH_SUCCESS :: "byte list" where
  "AUTH_SUCCESS = bytes_of ''Authentication is successfull!'' @ [0x0A]"
definition AUTH_FAIL :: "byte list" where
  "AUTH_FAIL = bytes_of ''Authentication error. Try again.'' @ [0x0A]"

datatype Cli_UartMode_e = UART_RX_MODE | UART_TX_MODE

text \<open>\<open>CliTxStatus_e\<close>, as the one byte that travels through the status queue.\<close>

definition CLI_TX_COMPLETE :: byte where "CLI_TX_COMPLETE = 1"
definition CLI_MSG_ERR :: byte where "CLI_MSG_ERR = 2"

text \<open>
  \<open>FSMAuthState_e\<close>. The field is kept as an integer, as in C, so that values outside
  the enumeration can be talked about.
\<close>

definition FSM_LOG_IN :: int where "FSM_LOG_IN = 0"
definition FSM_LOG_OUT :: int where "FSM_LOG_OUT = 1"
definition FSM_INPUT :: int where "FSM_INPUT = 2"
definition FSM_PROCESS :: int where "FSM_PROCESS = 3"
definition FSM_ERR :: int where "FSM_ERR = 4"

text \<open>FreeRTOS and driver status values used by the code.\<close>

definition pdFALSE :: int where "pdFALSE = 0"
definition pdTRUE :: int where "pdTRUE = 1"
definition pdPASS :: int where "pdPASS = 1"
definition ERR_NONE :: int where "ERR_NONE = 0"

text \<open>
  \<open>Cli_s\<close>: the fields of the session that the task itself reads and writes. The handles
  (\<open>uart\<close>, \<open>io\<close>, \<open>taskHandle\<close>, the two queues) are set once by \<open>CliStartup\<close>; what
  lies behind them is the record \<open>Env\<close> below.
\<close>

record Cli_s =
  rxBuffer :: "byte list"
  txBuffer :: "byte list"
  rxIndex :: "16 word"
  rxChar :: byte
  txChar :: byte
  authState :: int

text \<open>
  The world outside the session: the two direction pins, the writes handed to the
  transport by \<open>io_write\<close> (in order), the outcomes of the coming receives on the status
  queue (\<open>None\<close>: the wait ends with no item; an exhausted list: no event is ever
  delivered), and the state of the external command interpreter.
\<close>

record 'i Env =
  rxEnPin :: bool
  txEnPin :: bool
  ioLog :: "byte list list"
  txEvents :: "byte option list"
  cmdState :: 'i

section \<open>C string functions\<close>

definition c_str :: "byte list \<Rightarrow> byte list" where
  "c_str buf = takeWhile (\<lambda>c. c \<noteq> 0) buf"

definition strlen_c :: "byte list \<Rightarrow> nat" where
  "strlen_c buf = length (c_str buf)"

text \<open>\<open>strchr(buf, c) != NULL\<close>, for a character \<open>c\<close> other than NUL.\<close>

definition strchr_c :: "byte list \<Rightarrow> byte \<Rightarrow> bool" where
  "strchr_c buf c = (c \<in> set (c_str buf))"

definition strcspn_c :: "byte list \<Rightarrow> byte list \<Rightarrow> nat" where
  "strcspn_c buf reject = length (takeWhile (\<lambda>c. c \<notin> set reject) (c_str buf))"

fun strcmp_chars :: "byte list \<Rightarrow> byte list \<Rightarrow> int" where
  "strcmp_chars [] [] = 0"
| "strcmp_chars [] (y # ys) = - uint y"
| "strcmp_chars (x # xs) [] = uint x"
| "strcmp_chars (x # xs) (y # ys) =
     (if x = y then strcmp_chars xs ys else uint x - uint y)"

definition strcmp_c :: "byte list \<Rightarrow> byte list \<Rightarrow> int" where
  "strcmp_c a b = strcmp_chars (c_str a) (c_str b)"

section \<open>Transport and direction control (cli.c)\<close>

definition cliSetUartDirectionMode :: "Cli_UartMode_e \<Rightarrow> 'i Env \<Rightarrow> 'i Env" where
  "cliSetUartDirectionMode UartMode e =
     (case UartMode of
        UART_RX_MODE \<Rightarrow> e\<lparr>rxEnPin := False, txEnPin := False\<rparr>
      | UART_TX_MODE \<Rightarrow> e\<lparr>rxEnPin := True, txEnPin := True\<rparr>)"

text \<open>\<open>io_write(io, buf, strlen(buf))\<close>: the C string of \<open>buf\<close> is handed to the transport.\<close>

definition io_write :: "byte list \<Rightarrow> 'i Env \<Rightarrow> 'i Env" where
  "io_write buf e = e\<lparr>ioLog := ioLog e @ [c_str buf]\<rparr>"

text \<open>
  \<open>xQueueReceive(txQueue, &buf, ticks)\<close>, whose return value the callers ignore: an item
  overwrites \<open>buf\<close>, a wait that ends with no item leaves it as it was. Every wait is
  taken to end; a wait that never ends can only add to what never returns.
\<close>

definition xQueueReceive_tx :: "byte \<Rightarrow> 'i Env \<Rightarrow> byte \<times> 'i Env" where
  "xQueueReceive_tx buf e =
     (case txEvents e of
        [] \<Rightarrow> (buf, e)
      | ev # rest \<Rightarrow> ((case ev of None \<Rightarrow> buf | Some b \<Rightarrow> b), e\<lparr>txEvents := rest\<rparr>))"

definition cliSendMessage :: "byte list \<Rightarrow> 'i Env \<times> Cli_s \<Rightarrow> 'i Env \<times> Cli_s" where
  "cliSendMessage message = (\<lambda>(e, s).
     let e1 = cliSetUartDirectionMode UART_TX_MODE e;
         e2 = io_write message e1;
         (c, e3) = xQueueReceive_tx (txChar s) e2;
         e4 = cliSetUartDirectionMode UART_RX_MODE e3
     in (e4, s\<lparr>txChar := c\<rparr>))"

section \<open>Authentication state machine (cliAuthenticate)\<close>

text \<open>
  Modelled from the spec: the constant of the third \<open>case\<close> label of \<open>cliAuthenticate\<close>,
  which is missing in the source text (the keyword \<open>case\<close> stands alone before the branch
  that cuts the line and compares it with the password). The spec names this branch the
  Verifying state, entered from Collecting, and \<open>FSM_PROCESS\<close> is the state the
  \<open>FSM_INPUT\<close> branch moves to.
\<close>

definition verifying_label :: int where
  "verifying_label = FSM_PROCESS"

text \<open>
  One pass through the \<open>switch\<close> of \<open>cliAuthenticate\<close>. Every \<open>break\<close> in it leaves the
  \<open>switch\<close>, not the enclosing \<open>do ... while (1)\<close>.
\<close>

definition auth_switch :: "'i Env \<times> Cli_s \<Rightarrow> 'i Env \<times> Cli_s" where
  "auth_switch = (\<lambda>(e, s).
     if authState s = FSM_LOG_IN then
       (let s1 = s\<lparr>rxBuffer := replicate CLI_RX_BUFFER_SIZE 0\<rparr>;
            (e2, s2) = cliSendMessage PROMPT_PASSWORD (e, s1)
        in (e2, s2\<lparr>rxIndex := 0, authState := FSM_INPUT\<rparr>))
     else if authState s = FSM_INPUT then
       (if strchr_c (rxBuffer s) 0x0A then (e, s\<lparr>authState := FSM_PROCESS\<rparr>) else (e, s))
     else if authState s = verifying_label then
       (let s1 = s\<lparr>rxBuffer := (rxBuffer s)[strcspn_c (rxBuffer s) [0x0D, 0x0A] := 0]\<rparr>
        in if strcmp_c (rxBuffer s1) PASSWORD = 0 then
             cliSendMessage AUTH_SUCCESS
               (e, s1\<lparr>rxBuffer := replicate CLI_RX_BUFFER_SIZE 0, authState := FSM_LOG_OUT\<rparr>)
           else (e, s1\<lparr>authState := FSM_ERR\<rparr>))
     else if authState s = FSM_ERR then
       (let (e1, s1) = cliSendMessage AUTH_FAIL (e, s)
        in (e1, s1\<lparr>rxBuffer := replicate CLI_RX_BUFFER_SIZE 0, rxIndex := 0,
                    authState := FSM_LOG_IN\<rparr>))
     else (e, s\<lparr>authState := FSM_ERR\<rparr>))"

text \<open>
  \<open>cliAuthenticate\<close>: \<open>do { switch ... } while (1)\<close>. The result is the state on return,
  \<open>None\<close> when the routine does not return.
\<close>

partial_function (option) cliAuthenticate :: "'i Env \<times> Cli_s \<Rightarrow> ('i Env \<times> Cli_s) option" where
  "cliAuthenticate st = cliAuthenticate (auth_switch st)"

section \<open>Session task (cliTask)\<close>

text \<open>
  The external interpreter \<open>FreeRTOS_CLIProcessCommand\<close> is a parameter: from its own
  state, the command line (which it may only read) and the write buffer it yields its
  return value, the new contents of the write buffer and its new state.
\<close>

type_synonym 'i interpreter = "'i \<Rightarrow> byte list \<Rightarrow> byte list \<Rightarrow> int \<times> byte list \<times> 'i"

text \<open>
  One pass through the body of the inner \<open>do ... while (1)\<close> of the \<open>CLI_END_CHAR\<close>
  branch; the flag says whether the \<open>break\<close> is taken.
\<close>

definition dispatch_pass ::
  "'i interpreter \<Rightarrow> 'i Env \<times> Cli_s \<Rightarrow> ('i Env \<times> Cli_s) \<times> bool" where
  "dispatch_pass interp = (\<lambda>(e, s).
     let (returnStatus, tx, i) = interp (cmdState e) (rxBuffer s) (txBuffer s);
         s1 = s\<lparr>txBuffer := tx\<rparr>;
         e1 = cliSetUartDirectionMode UART_TX_MODE (e\<lparr>cmdState := i\<rparr>);
         e2 = io_write (txBuffer s1) e1;
         (queueBuff, e3) = xQueueReceive_tx 0 e2
     in ((e3, s1), returnStatus = pdFALSE \<or> queueBuff = 2))"

text \<open>The inner loop, with fuel: \<open>None\<close> when the fuel does not reach the \<open>break\<close>.\<close>

fun dispatch_loop ::
  "'i interpreter \<Rightarrow> nat \<Rightarrow> 'i Env \<times> Cli_s \<Rightarrow> ('i Env \<times> Cli_s) option" where
  "dispatch_loop interp 0 st = None"
| "dispatch_loop interp (Suc n) st =
     (case dispatch_pass interp st of
        (st1, stop) \<Rightarrow> if stop then Some st1 else dispatch_loop interp n st1)"

text \<open>The \<open>switch (cliInstance.rxChar)\<close> of \<open>cliTask\<close>.\<close>

definition cliTask_switch ::
  "'i interpreter \<Rightarrow> nat \<Rightarrow> 'i Env \<times> Cli_s \<Rightarrow> ('i Env \<times> Cli_s) option" where
  "cliTask_switch interp fuel = (\<lambda>(e, s).
     if rxChar s = CLI_END_CHAR then
       (case dispatch_loop interp fuel
               (e, s\<lparr>rxBuffer := (rxBuffer s)[unat (rxIndex s) := CLI_NULL_CHAR]\<rparr>) of
          None \<Rightarrow> None
        | Some (e1, s1) \<Rightarrow>
            Some (cliSetUartDirectionMode UART_RX_MODE e1, s1\<lparr>rxIndex := 0\<rparr>))
     else if rxChar s = CLI_BS_CHAR then
       (if rxIndex s > 0 then
          (let s1 = s\<lparr>rxIndex := rxIndex s - 1\<rparr>
           in Some (e, s1\<lparr>rxBuffer := (rxBuffer s1)[unat (rxIndex s1) := CLI_NULL_CHAR]\<rparr>))
        else Some (e, s))
     else
       (if unat (rxIndex s) < CLI_RX_BUFFER_SIZE - 1 then
          Some (e, s\<lparr>rxBuffer := (rxBuffer s)[unat (rxIndex s) := rxChar s],
                     rxIndex := rxIndex s + 1\<rparr>)
        else Some (e, s)))"

text \<open>
  One pass through the body of the outer \<open>while (1)\<close> of \<open>cliTask\<close>, where the blocking
  receive on the inbound queue delivers the byte \<open>c\<close>: \<open>cliAuthenticate\<close> is called first,
  and the receive and the switch follow once it has returned.
\<close>

definition cliTask_pass ::
  "'i interpreter \<Rightarrow> nat \<Rightarrow> byte \<Rightarrow> 'i Env \<times> Cli_s \<Rightarrow> ('i Env \<times> Cli_s) option" where
  "cliTask_pass interp fuel c st =
     (case cliAuthenticate st of
        None \<Rightarrow> None
      | Some (e1, s1) \<Rightarrow> cliTask_switch interp fuel (e1, s1\<lparr>rxChar := c\<rparr>))"

text \<open>
  The per-byte processing alone: the bytes of \<open>cs\<close> are delivered one at a time to the
  switch.
\<close>

fun cliTask_feed ::
  "'i interpreter \<Rightarrow> nat \<Rightarrow> byte list \<Rightarrow> 'i Env \<times> Cli_s \<Rightarrow> ('i Env \<times> Cli_s) option" where
  "cliTask_feed interp fuel [] st = Some st"
| "cliTask_feed interp fuel (c # cs) st =
     (case cliTask_switch interp fuel (fst st, (snd st)\<lparr>rxChar := c\<rparr>) of
        None \<Rightarrow> None
      | Some st1 \<Rightarrow> cliTask_feed interp fuel cs st1)"

section \<open>Startup (CliStartup)\<close>

text \<open>
  What the external calls of \<open>CliStartup\<close> hand back: the result of
  \<open>usart_async_get_io_descriptor\<close> and the descriptor it stores (\<open>None\<close>: NULL), the two
  queue handles, the three registration results, the result of \<open>usart_async_enable\<close> and
  that of \<open>xTaskCreate\<close>. The function yields its \<open>int16_t\<close> status and the external calls
  it has made, in order; the session task exists when \<open>TaskCreate\<close> is among them and
  \<open>taskStatus\<close> is \<open>pdPASS\<close>.
\<close>

record StartupResults =
  ioResult :: int
  ioDescriptor :: "nat option"
  rxQueue :: "nat option"
  txQueue :: "nat option"
  rxCbStatus :: int
  txCbStatus :: int
  errCbStatus :: int
  uartEnableStatus :: int
  taskStatus :: int

datatype startup_call =
  SetRxMode | GetIoDescriptor | QueueCreate | CmdInit | RegisterCallback | UartEnable | TaskCreate

definition CliStartup :: "StartupResults \<Rightarrow> int \<times> startup_call list" where
  "CliStartup r =
     (let calls1 = [SetRxMode, GetIoDescriptor] in
      if ioResult r \<noteq> ERR_NONE \<or> ioDescriptor r = None then (0, calls1)
      else
        let calls2 = calls1 @ [QueueCreate, QueueCreate] in
        if rxQueue r = None \<or> txQueue r = None then (- 1, calls2)
        else
          let calls3 = calls2 @ [CmdInit, RegisterCallback, RegisterCallback, RegisterCallback] in
          if rxCbStatus r \<noteq> ERR_NONE \<or> txCbStatus r \<noteq> ERR_NONE \<or> errCbStatus r \<noteq> ERR_NONE
          then (- 2, calls3)
          else
            let calls4 = calls3 @ [UartEnable] in
            if uartEnableStatus r \<noteq> ERR_NONE then (- 3, calls4)
            else
              let calls5 = calls4 @ [SetRxMode, TaskCreate] in
              if taskStatus r \<noteq> pdPASS then (- 4, calls5)
              else (0, calls5))"

section \<open>Command callbacks (cli_cmd.c)\<close>

text \<open>
  The memory that starts at \<open>pcWriteBuffer\<close>, by offset: the first \<open>xWriteBufferLen\<close>
  bytes are the buffer, the offsets from \<open>xWriteBufferLen\<close> on lie behind it. A NULL
  pointer is \<open>None\<close>. \<open>strcpy\<close> writes the characters of the source and the NUL after them.
\<close>

type_synonym memory = "nat \<Rightarrow> byte"

definition hello :: "byte list" where
  "hello = bytes_of ''Hello world '' @ [0x0D, 0x0A]"

definition version :: "byte list" where
  "version = bytes_of ''CLI Version 1.0.0 '' @ [0x0D, 0x0A]"

definition strcpy_c :: "memory \<Rightarrow> byte list \<Rightarrow> memory" where
  "strcpy_c dst src =
     (\<lambda>i. if i < strlen_c src then src ! i else if i = strlen_c src then 0 else dst i)"

definition cliCallbackHelloCommand ::
  "memory option \<Rightarrow> nat \<Rightarrow> byte list \<Rightarrow> int \<times> memory option" where
  "cliCallbackHelloCommand pcWriteBuffer xWriteBufferLen pcCommandString =
     (case pcWriteBuffer of
        None \<Rightarrow> (pdFALSE, None)
      | Some m \<Rightarrow>
          if xWriteBufferLen = 0 then (pdFALSE, Some m)
          else if strlen_c hello > xWriteBufferLen then (pdFALSE, Some m)
          else (pdFALSE, Some (strcpy_c m hello)))"

definition cliCallbackVersionCommand ::
  "memory option \<Rightarrow> nat \<Rightarrow> byte list \<Rightarrow> int \<times> memory option" where
  "cliCallbackVersionCommand pcWriteBuffer xWriteBufferLen pcCommandString =
     (case pcWriteBuffer of
        None \<Rightarrow> (pdFALSE, None)
      | Some m \<Rightarrow>
          if xWriteBufferLen = 0 then (pdFALSE, Some m)
          else if strlen_c version > xWriteBufferLen then (pdFALSE, Some m)
          else (pdFALSE, Some (strcpy_c m version)))"

section \<open>Specification-level notions\<close>

text \<open>
  The line as the spec words it: backspaces applied from left to right, each removing the
  character before it (none at an empty line), then truncated to capacity - 1.
\<close>

definition apply_backspaces :: "byte list \<Rightarrow> byte list" where
  "apply_backspaces cs = foldl (\<lambda>l c. if c = CLI_BS_CHAR then butlast l else l @ [c]) [] cs"

definition spec_line :: "byte list \<Rightarrow> byte list" where
  "spec_line cs = take (CLI_RX_BUFFER_SIZE - 1) (apply_backspaces cs)"

text \<open>
  The line as the switch edits it, byte by byte: a backspace removes the last stored
  character, any other byte is appended while fewer than capacity - 1 are stored and
  dropped otherwise.
\<close>

definition line_edit :: "byte list \<Rightarrow> byte \<Rightarrow> byte list" where
  "line_edit l c =
     (if c = CLI_BS_CHAR then butlast l
      else if length l < CLI_RX_BUFFER_SIZE - 1 then l @ [c] else l)"

definition edited_line :: "byte list \<Rightarrow> byte list" where
  "edited_line cs = foldl line_edit [] cs"

text \<open>The session holds the line \<open>l\<close>: the cursor is its length, the buffer starts with it.\<close>

definition holds_line :: "Cli_s \<Rightarrow> byte list \<Rightarrow> bool" where
  "holds_line s l =
     (unat (rxIndex s) = length l \<and> take (length l) (rxBuffer s) = l \<and>
      length (rxBuffer s) = CLI_RX_BUFFER_SIZE \<and> length l \<le> CLI_RX_BUFFER_SIZE - 1)"

text \<open>Stripping trailing CR and LF characters, as the spec words the Verifying step.\<close>

definition strip_trailing_crlf :: "byte list \<Rightarrow> byte list" where
  "strip_trailing_crlf line = rev (dropWhile (\<lambda>c. c = 0x0D \<or> c = 0x0A) (rev line))"

text \<open>
  The interpreter's state and write buffer after \<open>n\<close> invocations on the command line
  \<open>rx\<close>, the value its next invocation returns, and the outcome of the \<open>k\<close>-th coming
  wait on the status queue. Pass \<open>k\<close> of the dispatch loop (counted from 0) meets the end
  condition when the interpreter then reports no more output or the status event then
  consumed is \<open>CLI_MSG_ERR\<close>.
\<close>

fun interp_after ::
  "'i interpreter \<Rightarrow> byte list \<Rightarrow> nat \<Rightarrow> 'i \<times> byte list \<Rightarrow> 'i \<times> byte list" where
  "interp_after interp rx 0 st = st"
| "interp_after interp rx (Suc n) st =
     (case interp (fst st) rx (snd st) of (r, tx, i) \<Rightarrow> interp_after interp rx n (i, tx))"

definition interp_return ::
  "'i interpreter \<Rightarrow> byte list \<Rightarrow> nat \<Rightarrow> 'i \<times> byte list \<Rightarrow> int" where
  "interp_return interp rx n st =
     (case interp_after interp rx n st of (i, tx) \<Rightarrow> fst (interp i rx tx))"

definition status_event :: "byte option list \<Rightarrow> nat \<Rightarrow> byte option" where
  "status_event evs k = (if k < length evs then evs ! k else None)"

definition dispatch_ends :: "'i interpreter \<Rightarrow> 'i Env \<times> Cli_s \<Rightarrow> nat \<Rightarrow> bool" where
  "dispatch_ends interp = (\<lambda>(e, s) k.
     interp_return interp (rxBuffer s) k (cmdState e, txBuffer s) = pdFALSE \<or>
     status_event (txEvents e) k = Some CLI_MSG_ERR)"

section \<open>Concrete sessions, environments and interpreters\<close>

text \<open>\<open>static Cli_s cliInstance = {0}\<close>.\<close>

definition cliInstance_init :: Cli_s where
  "cliInstance_init =
     \<lparr>rxBuffer = replicate CLI_RX_BUFFER_SIZE 0, txBuffer = replicate CLI_TX_BUFFER_SIZE 0,
      rxIndex = 0, rxChar = 0, txChar = 0, authState = 0\<rparr>"

text \<open>Receive mode, nothing written yet, the given status events to come.\<close>

definition quiet_env :: "byte option list \<Rightarrow> 'i \<Rightarrow> 'i Env" where
  "quiet_env evs i =
     \<lparr>rxEnPin = False, txEnPin = False, ioLog = [], txEvents = evs, cmdState = i\<rparr>"

text \<open>
  An interpreter whose command produces \<open>n\<close> chunks: it reports more output until its
  \<open>n\<close>-th invocation, and counts its invocations.
\<close>

definition chunk_interp :: "nat \<Rightarrow> nat interpreter" where
  "chunk_interp n = (\<lambda>i rx tx. (if Suc i < n then pdTRUE else pdFALSE, tx, Suc i))"

text \<open>An authenticated session that holds \<open>hello\<close> and has just received the terminator.\<close>

definition cr_session :: Cli_s where
  "cr_session =
     cliInstance_init\<lparr>rxBuffer := bytes_of ''hello'' @ replicate 251 0, rxIndex := 5,
       rxChar := CLI_END_CHAR, authState := FSM_LOG_OUT\<rparr>"

text \<open>A buffer that holds the password, a line feed and three more characters.\<close>

definition crlf_line :: "byte list" where
  "crlf_line = bytes_of ''1234'' @ [0x0A] @ bytes_of ''abc'' @ replicate 248 0"

text \<open>A buffer that holds the password and a line feed.\<close>

definition password_line :: "byte list" where
  "password_line = bytes_of ''1234'' @ [0x0A] @ replicate 251 0"

text \<open>256 letters, one more than the line can take, and a backspace.\<close>

definition overfull :: "byte list" where
  "overfull = replicate 256 0x61 @ [CLI_BS_CHAR]"

text \<open>Every startup step succeeds.\<close>

definition startup_all_ok :: StartupResults where
  "startup_all_ok =
     \<lparr>ioResult = 0, ioDescriptor = Some 1, rxQueue = Some 2, txQueue = Some 3,
      rxCbStatus = 0, txCbStatus = 0, errCbStatus = 0, uartEnableStatus = 0, taskStatus = 1\<rparr>"

section \<open>C strings\<close>

lemma c_str_no_nul: "0 \<notin> set (c_str buf)"
  by (auto simp: c_str_def dest: set_takeWhileD)

lemma c_str_id: "0 \<notin> set xs \<Longrightarrow> c_str xs = xs"
  by (induction xs) (simp_all add: c_str_def)

lemma strcmp_chars_eq:
  "0 \<notin> set a \<Longrightarrow> 0 \<notin> set b \<Longrightarrow> (strcmp_chars a b = 0) = (a = b)"
  by (induction a b rule: strcmp_chars.induct) (auto simp: word_uint_eq_iff)

lemma PASSWORD_bytes: "PASSWORD = [0x31, 0x32, 0x33, 0x34]"
  by (simp add: PASSWORD_def bytes_of_def)

lemma strcmp_c_PASSWORD: "(strcmp_c buf PASSWORD = 0) = (c_str buf = PASSWORD)"
proof -
  have "0 \<notin> set PASSWORD" by (simp add: PASSWORD_bytes)
  then show ?thesis
    by (simp add: strcmp_c_def strcmp_chars_eq c_str_no_nul c_str_id)
qed

text \<open>Writing NUL at \<open>strcspn(buf, reject)\<close> cuts the string at its first rejected character.\<close>

lemma c_str_cut:
  "c_str (buf[strcspn_c buf rej := 0]) = takeWhile (\<lambda>c. c \<notin> set rej) (c_str buf)"
  unfolding c_str_def strcspn_c_def by (induction buf) auto

lemma strlen_hello: "strlen_c hello = 14"
  by (simp add: strlen_c_def c_str_def hello_def bytes_of_def)

lemma strlen_version: "strlen_c version = 20"
  by (simp add: strlen_c_def c_str_def version_def bytes_of_def)

section \<open>The authentication state machine\<close>

lemma cliSendMessage_authState:
  "authState (snd (cliSendMessage m (e, s))) = authState s"
  by (simp add: cliSendMessage_def Let_def split: prod.splits)

lemma cliAuthenticate_no_result:
  assumes "cliAuthenticate st = Some r"
  shows False
  by (rule cliAuthenticate.raw_induct [where P = "\<lambda>_ _. False", OF _ assms]) blast

lemma auth_switch_at_FSM_INPUT:
  "authState s = FSM_INPUT \<Longrightarrow>
   auth_switch (e, s) =
     (e, if 0x0A \<in> set (c_str (rxBuffer s)) then s\<lparr>authState := FSM_PROCESS\<rparr> else s)"
  by (simp add: auth_switch_def verifying_label_def strchr_c_def FSM_INPUT_def
        FSM_LOG_IN_def)

lemma auth_switch_at_FSM_PROCESS:
  "authState s = FSM_PROCESS \<Longrightarrow>
   authState (snd (auth_switch (e, s))) =
     (if takeWhile (\<lambda>c. c \<notin> {0x0D, 0x0A}) (c_str (rxBuffer s)) = PASSWORD
      then FSM_LOG_OUT else FSM_ERR)"
  using c_str_cut [of "rxBuffer s" "[0x0D, 0x0A]"]
  by (simp add: auth_switch_def verifying_label_def strcmp_c_PASSWORD cliSendMessage_authState
        FSM_PROCESS_def FSM_LOG_IN_def FSM_INPUT_def)

text \<open>
  C1. From every state, so from every authentication state, \<open>cliAuthenticate\<close> does not
  return; a pass of the session loop that calls it therefore never reaches the receive
  on the inbound queue, whatever byte waits there and however long the interpreter may
  run.
\<close>

theorem cliAuthenticate_never_returns:
  "cliAuthenticate st = None \<and> cliTask_pass interp fuel c st = None"
proof -
  have "cliAuthenticate st = None"
    using cliAuthenticate_no_result [of st] by (cases "cliAuthenticate st") auto
  then show ?thesis by (simp add: cliTask_pass_def)
qed

text \<open>
  C9. A pass through the switch from a state value that none of its labels handles
  (neither \<open>FSM_LOG_IN\<close>, \<open>FSM_INPUT\<close>, \<open>FSM_PROCESS\<close> nor \<open>FSM_ERR\<close>) takes the default
  branch and leaves the state \<open>FSM_ERR\<close>.
\<close>

theorem auth_switch_unknown_state:
  assumes "authState s \<notin> {FSM_LOG_IN, FSM_INPUT, FSM_PROCESS, FSM_ERR}"
  shows "authState (snd (auth_switch (e, s))) = FSM_ERR"
  using assms by (simp add: auth_switch_def verifying_label_def)

theorem auth_switch_unknown_state_witness:
  "authState (cliInstance_init\<lparr>authState := 7\<rparr>) \<notin> {FSM_LOG_IN, FSM_INPUT, FSM_PROCESS, FSM_ERR} \<and>
   authState (snd (auth_switch (quiet_env [] (), cliInstance_init\<lparr>authState := 7\<rparr>))) = FSM_ERR"
proof -
  have h: "authState (cliInstance_init\<lparr>authState := 7\<rparr>) \<notin>
      {FSM_LOG_IN, FSM_INPUT, FSM_PROCESS, FSM_ERR}"
    by (simp add: FSM_LOG_IN_def FSM_INPUT_def FSM_PROCESS_def FSM_ERR_def)
  from h auth_switch_unknown_state [OF h] show ?thesis by (rule conjI)
qed

text \<open>
  C6. The code does not keep the Authenticated state: \<open>FSM_LOG_OUT\<close> has no label in the
  switch, so a pass from it takes the default branch to \<open>FSM_ERR\<close>; the next pass sends
  the failure message and goes to \<open>FSM_LOG_IN\<close>, and the third sends the password prompt
  again and goes to \<open>FSM_INPUT\<close>.
\<close>

theorem authenticated_falls_to_default:
  assumes "authState s = FSM_LOG_OUT"
  shows "authState (snd (auth_switch (e, s))) = FSM_ERR \<and>
         authState (snd (auth_switch (auth_switch (e, s)))) = FSM_LOG_IN \<and>
         authState (snd (auth_switch (auth_switch (auth_switch (e, s))))) = FSM_INPUT \<and>
         ioLog (fst (auth_switch (auth_switch (auth_switch (e, s))))) =
           ioLog e @ [AUTH_FAIL, PROMPT_PASSWORD]"
proof -
  have m: "c_str AUTH_FAIL = AUTH_FAIL" "c_str PROMPT_PASSWORD = PROMPT_PASSWORD"
    by (simp_all add: c_str_def AUTH_FAIL_def PROMPT_PASSWORD_def bytes_of_def)
  obtain e1 s1 where p1: "auth_switch (e, s) = (e1, s1)" by (metis surj_pair)
  have s1: "authState s1 = FSM_ERR" "ioLog e1 = ioLog e"
    using assms p1
    by (auto simp: auth_switch_def verifying_label_def FSM_LOG_OUT_def FSM_LOG_IN_def
          FSM_INPUT_def FSM_PROCESS_def FSM_ERR_def)
  obtain e2 s2 where p2: "auth_switch (e1, s1) = (e2, s2)" by (metis surj_pair)
  have s2: "authState s2 = FSM_LOG_IN" "ioLog e2 = ioLog e @ [AUTH_FAIL]"
    using s1 p2 m
    by (auto simp: auth_switch_def verifying_label_def cliSendMessage_def xQueueReceive_tx_def
          io_write_def cliSetUartDirectionMode_def Let_def FSM_LOG_IN_def FSM_INPUT_def FSM_PROCESS_def
          FSM_ERR_def split: prod.splits list.splits)
  obtain e3 s3 where p3: "auth_switch (e2, s2) = (e3, s3)" by (metis surj_pair)
  have s3: "authState s3 = FSM_INPUT" "ioLog e3 = ioLog e @ [AUTH_FAIL, PROMPT_PASSWORD]"
    using s2 p3 m
    by (auto simp: auth_switch_def verifying_label_def cliSendMessage_def xQueueReceive_tx_def
          io_write_def cliSetUartDirectionMode_def Let_def FSM_LOG_IN_def FSM_INPUT_def
          split: prod.splits list.splits)
  show ?thesis using p1 p2 p3 s1 s2 s3 by simp
qed

theorem authenticated_falls_to_default_witness:
  "authState (cliInstance_init\<lparr>authState := FSM_LOG_OUT\<rparr>) = FSM_LOG_OUT \<and>
   (authState (snd (auth_switch (quiet_env [] (), cliInstance_init\<lparr>authState := FSM_LOG_OUT\<rparr>))) =
      FSM_ERR \<and>
    authState (snd (auth_switch (auth_switch
      (quiet_env [] (), cliInstance_init\<lparr>authState := FSM_LOG_OUT\<rparr>)))) = FSM_LOG_IN \<and>
    authState (snd (auth_switch (auth_switch (auth_switch
      (quiet_env [] (), cliInstance_init\<lparr>authState := FSM_LOG_OUT\<rparr>))))) = FSM_INPUT \<and>
    ioLog (fst (auth_switch (auth_switch (auth_switch
      (quiet_env [] (), cliInstance_init\<lparr>authState := FSM_LOG_OUT\<rparr>))))) =
      ioLog (quiet_env [] ()) @ [AUTH_FAIL, PROMPT_PASSWORD])"
proof -
  have h: "authState (cliInstance_init\<lparr>authState := FSM_LOG_OUT\<rparr>) = FSM_LOG_OUT" by simp
  from h authenticated_falls_to_default [OF h] show ?thesis by (rule conjI)
qed

text \<open>
  C5, as the code has it. In the Verifying step (\<open>FSM_PROCESS\<close>), on a buffer that holds a
  C string, the line is cut at its first CR or LF character and compared with the
  password: when what stands before that character equals \<open>1234\<close> the state becomes
  \<open>FSM_LOG_OUT\<close> and the whole buffer is cleared, and in every other case the state
  becomes \<open>FSM_ERR\<close>.
\<close>

theorem verifying_cuts_at_first_line_end:
  assumes "authState s = FSM_PROCESS" and "0 \<in> set (rxBuffer s)"
  shows "let line = takeWhile (\<lambda>c. c \<notin> {0x0D, 0x0A}) (c_str (rxBuffer s));
             s' = snd (auth_switch (e, s))
         in if line = PASSWORD
            then authState s' = FSM_LOG_OUT \<and> rxBuffer s' = replicate CLI_RX_BUFFER_SIZE 0
            else authState s' = FSM_ERR"
  using assms(1) c_str_cut [of "rxBuffer s" "[0x0D, 0x0A]"]
  by (simp add: auth_switch_def verifying_label_def Let_def strcmp_c_PASSWORD cliSendMessage_def
       FSM_PROCESS_def FSM_LOG_IN_def FSM_INPUT_def split: prod.splits)

theorem verifying_cuts_at_first_line_end_witness:
  "authState (cliInstance_init\<lparr>rxBuffer := password_line, authState := FSM_PROCESS\<rparr>) =
     FSM_PROCESS \<and>
   0 \<in> set (rxBuffer (cliInstance_init\<lparr>rxBuffer := password_line, authState := FSM_PROCESS\<rparr>)) \<and>
   takeWhile (\<lambda>c. c \<notin> {0x0D, 0x0A}) (c_str password_line) = PASSWORD \<and>
   authState (snd (auth_switch (quiet_env [] (),
     cliInstance_init\<lparr>rxBuffer := password_line, authState := FSM_PROCESS\<rparr>))) = FSM_LOG_OUT \<and>
   rxBuffer (snd (auth_switch (quiet_env [] (),
     cliInstance_init\<lparr>rxBuffer := password_line, authState := FSM_PROCESS\<rparr>))) =
     replicate CLI_RX_BUFFER_SIZE 0"
proof -
  let ?s = "cliInstance_init\<lparr>rxBuffer := password_line, authState := FSM_PROCESS\<rparr>"
  have h1: "authState ?s = FSM_PROCESS" by simp
  have h2: "0 \<in> set (rxBuffer ?s)" by (simp add: password_line_def)
  have l: "takeWhile (\<lambda>c. c \<notin> {0x0D, 0x0A}) (c_str password_line) = PASSWORD"
    by (simp add: password_line_def c_str_def bytes_of_def PASSWORD_def)
  from verifying_cuts_at_first_line_end [OF h1 h2, of "quiet_env [] ()"] h1 h2 l
  show ?thesis by (simp add: Let_def)
qed

text \<open>
  The claim as worded fails: the buffer \<open>1234\<close>, LF, \<open>abc\<close> is not the password after its
  trailing CR and LF characters are stripped, yet the step authenticates it.
\<close>

theorem verifying_strip_trailing_counterexample:
  "strip_trailing_crlf (c_str crlf_line) \<noteq> PASSWORD \<and>
   authState (snd (auth_switch (quiet_env [] (),
     cliInstance_init\<lparr>rxBuffer := crlf_line, authState := FSM_PROCESS\<rparr>))) = FSM_LOG_OUT"
  by (simp add: strip_trailing_crlf_def crlf_line_def bytes_of_def c_str_def PASSWORD_def
      auth_switch_def verifying_label_def quiet_env_def cliInstance_init_def FSM_PROCESS_def
      FSM_LOG_IN_def FSM_INPUT_def strcspn_c_def strcmp_c_def cliSendMessage_def split: prod.splits)

section \<open>The line assembler\<close>

lemma rxIndex_succ:
  fixes i :: "16 word"
  assumes "unat i < 255"
  shows "unat (i + 1) = Suc (unat i)"
  using assms by (simp add: unat_word_ariths)

lemma rxIndex_pred:
  fixes i :: "16 word"
  assumes "0 < i"
  shows "unat (i - 1) = unat i - 1"
  using assms by (simp add: unat_minus_one word_gt_0)

text \<open>A byte other than the terminator edits the held line and leaves the rest alone.\<close>

lemma cliTask_switch_line:
  assumes "holds_line s l" "c \<noteq> CLI_END_CHAR"
  shows "\<exists>s1. cliTask_switch interp fuel (e, s\<lparr>rxChar := c\<rparr>) = Some (e, s1) \<and>
              holds_line s1 (line_edit l c) \<and> authState s1 = authState s"
proof (cases "c = CLI_BS_CHAR")
  case True
  show ?thesis
  proof (cases "0 < rxIndex s")
    case pos: True
    then have n: "unat (rxIndex s - 1) = length l - 1" "0 < length l"
      using assms(1) rxIndex_pred [OF pos] by (auto simp: holds_line_def word_gt_0 unat_eq_0)
    have le: "length l \<le> length (rxBuffer s)"
      using assms(1) by (simp add: holds_line_def CLI_RX_BUFFER_SIZE_def)
    have "butlast (take (length l) (rxBuffer s)) = take (length l - 1) (rxBuffer s)"
      using le by (rule butlast_take)
    then have "take (length l - 1) ((rxBuffer s)[length l - 1 := CLI_NULL_CHAR]) = butlast l"
      using assms(1) by (simp add: holds_line_def)
    then show ?thesis
      using True pos n assms
      by (auto simp: cliTask_switch_def line_edit_def holds_line_def Let_def CLI_END_CHAR_def
            CLI_BS_CHAR_def)
  next
    case False
    then have "l = []" using assms(1) by (auto simp: holds_line_def word_gt_0)
    then show ?thesis
      using True False assms
      by (simp add: cliTask_switch_def line_edit_def holds_line_def CLI_END_CHAR_def
            CLI_BS_CHAR_def)
  qed
next
  case False
  show ?thesis
  proof (cases "unat (rxIndex s) < CLI_RX_BUFFER_SIZE - 1")
    case room: True
    then have i: "unat (rxIndex s + 1) = Suc (length l)" "length l < length (rxBuffer s)"
      using assms(1) rxIndex_succ [of "rxIndex s"]
      by (auto simp: holds_line_def CLI_RX_BUFFER_SIZE_def)
    have "take (Suc (length l)) ((rxBuffer s)[length l := c]) = l @ [c]"
      using assms(1) i(2) by (auto simp: holds_line_def take_Suc_conv_app_nth)
    then show ?thesis
      using False room i assms
      by (simp add: cliTask_switch_def line_edit_def holds_line_def)
  next
    case full: False
    have "line_edit l c = l"
      using False full assms(1) by (simp add: line_edit_def holds_line_def)
    moreover have
      "cliTask_switch interp fuel (e, s\<lparr>rxChar := c\<rparr>) = Some (e, s\<lparr>rxChar := c\<rparr>)"
      using False full assms(2) by (simp add: cliTask_switch_def)
    moreover have "holds_line (s\<lparr>rxChar := c\<rparr>) l"
      using assms(1) by (simp add: holds_line_def)
    ultimately show ?thesis by simp
  qed
qed

lemma cliTask_feed_line:
  assumes "holds_line s l" "CLI_END_CHAR \<notin> set cs"
  shows "\<exists>s1. cliTask_feed interp fuel cs (e, s) = Some (e, s1) \<and>
              holds_line s1 (foldl line_edit l cs) \<and> authState s1 = authState s"
  using assms
proof (induction cs arbitrary: s l)
  case Nil
  then show ?case by simp
next
  case (Cons c cs)
  then have "c \<noteq> CLI_END_CHAR" by auto
  from cliTask_switch_line [OF Cons.prems(1) this, of interp fuel e]
  obtain s1 where s1: "cliTask_switch interp fuel (e, s\<lparr>rxChar := c\<rparr>) = Some (e, s1)"
    "holds_line s1 (line_edit l c)" "authState s1 = authState s" by blast
  from Cons.IH [OF s1(2)] Cons.prems(2) s1(1,3) show ?case by simp
qed

lemma cliTask_feed_append:
  "cliTask_feed interp fuel (xs @ ys) st =
     (case cliTask_feed interp fuel xs st of
        None \<Rightarrow> None
      | Some st1 \<Rightarrow> cliTask_feed interp fuel ys st1)"
  by (induction xs arbitrary: st) (auto split: option.splits)

lemma upd5:
  assumes "5 \<le> length xs"
  shows "xs[0 := a, Suc 0 := b, 2 := c, 3 := d, 4 := e] = a # b # c # d # e # drop 5 xs"
proof -
  obtain x0 x1 x2 x3 x4 r where "xs = x0 # x1 # x2 # x3 # x4 # r"
    using assms by (auto simp: Suc_le_length_iff numeral_eq_Suc)
  then show ?thesis by (simp add: numeral_eq_Suc)
qed

lemma feed_password_lf:
  assumes "rxIndex s = 0" "length (rxBuffer s) = CLI_RX_BUFFER_SIZE"
  shows "cliTask_feed interp fuel [0x31, 0x32, 0x33, 0x34, 0x0A] (e, s) =
    Some (e, s\<lparr>rxBuffer := [0x31, 0x32, 0x33, 0x34, 0x0A] @ drop 5 (rxBuffer s),
                rxIndex := 5, rxChar := 0x0A\<rparr>)"
  using assms
  by (simp add: cliTask_switch_def CLI_END_CHAR_def CLI_BS_CHAR_def CLI_RX_BUFFER_SIZE_def upd5)

section \<open>The dispatch loop\<close>

lemma dispatch_pass_effect:
  assumes "dispatch_pass interp (e, s) = ((e1, s1), stop)"
  shows "stop = dispatch_ends interp (e, s) 0"
    and "dispatch_ends interp (e1, s1) k = dispatch_ends interp (e, s) (Suc k)"
    and "length (ioLog e1) = Suc (length (ioLog e))"
    and "interp_after interp (rxBuffer s) n (cmdState e1, txBuffer s1) =
         interp_after interp (rxBuffer s) (Suc n) (cmdState e, txBuffer s)"
    and "rxBuffer s1 = rxBuffer s" and "rxIndex s1 = rxIndex s" and "authState s1 = authState s"
  using assms
  by (auto simp: dispatch_pass_def dispatch_ends_def interp_return_def status_event_def
        xQueueReceive_tx_def io_write_def cliSetUartDirectionMode_def CLI_MSG_ERR_def Let_def
      split: prod.splits list.splits option.splits)

text \<open>The loop runs out of fuel only when none of the passes it had fuel for meets the end condition.\<close>

lemma dispatch_loop_None:
  "dispatch_loop interp fuel (e, s) = None \<Longrightarrow> k < fuel \<Longrightarrow> \<not> dispatch_ends interp (e, s) k"
proof (induction fuel arbitrary: e s k)
  case 0
  then show ?case by simp
next
  case (Suc n)
  obtain e1 s1 stop where p: "dispatch_pass interp (e, s) = ((e1, s1), stop)"
    by (metis surj_pair)
  from Suc.prems(1) p have ns: "\<not> stop" and l: "dispatch_loop interp n (e1, s1) = None"
    by (auto split: if_splits)
  show ?case
  proof (cases k)
    case 0
    then show ?thesis using ns dispatch_pass_effect(1) [OF p] by simp
  next
    case (Suc k')
    then have "k' < n" using Suc.prems(2) by simp
    then have "\<not> dispatch_ends interp (e1, s1) k'" using Suc.IH [OF l] by simp
    then show ?thesis using dispatch_pass_effect(2) [OF p] Suc by simp
  qed
qed

text \<open>
  The loop ends with the first pass that meets the end condition; by then it has written
  once per pass and invoked the interpreter once per pass, and it has left the line
  buffer, the cursor and the authentication state alone.
\<close>

lemma dispatch_loop_Some:
  "dispatch_loop interp fuel (e, s) = Some (e', s') \<Longrightarrow>
   \<exists>k<fuel. dispatch_ends interp (e, s) k \<and> (\<forall>j<k. \<not> dispatch_ends interp (e, s) j) \<and>
     length (ioLog e') = length (ioLog e) + Suc k \<and>
     (cmdState e', txBuffer s') =
       interp_after interp (rxBuffer s) (Suc k) (cmdState e, txBuffer s) \<and>
     rxBuffer s' = rxBuffer s \<and> rxIndex s' = rxIndex s \<and> authState s' = authState s"
proof (induction fuel arbitrary: e s)
  case 0
  then show ?case by simp
next
  case (Suc n)
  obtain e1 s1 stop where p: "dispatch_pass interp (e, s) = ((e1, s1), stop)"
    by (metis surj_pair)
  note eff = dispatch_pass_effect [OF p]
  show ?case
  proof (cases stop)
    case True
    then have r: "e' = e1" "s' = s1" using Suc.prems p by auto
    have "dispatch_ends interp (e, s) 0" using True eff(1) by simp
    moreover have "(cmdState e1, txBuffer s1) =
        interp_after interp (rxBuffer s) (Suc 0) (cmdState e, txBuffer s)"
      using eff(4) [of 0] by simp
    ultimately show ?thesis using r eff(3,5,6,7) by (intro exI [of _ 0]) simp
  next
    case False
    then have l: "dispatch_loop interp n (e1, s1) = Some (e', s')" using Suc.prems p by simp
    from Suc.IH [OF l] obtain k where k: "k < n" "dispatch_ends interp (e1, s1) k"
      "\<forall>j<k. \<not> dispatch_ends interp (e1, s1) j"
      "length (ioLog e') = length (ioLog e1) + Suc k"
      "(cmdState e', txBuffer s') =
         interp_after interp (rxBuffer s1) (Suc k) (cmdState e1, txBuffer s1)"
      "rxBuffer s' = rxBuffer s1" "rxIndex s' = rxIndex s1" "authState s' = authState s1"
      by blast
    have nj: "\<forall>j<Suc k. \<not> dispatch_ends interp (e, s) j"
    proof (intro allI impI)
      fix j assume "j < Suc k"
      show "\<not> dispatch_ends interp (e, s) j"
      proof (cases j)
        case 0
        then show ?thesis using False eff(1) by simp
      next
        case (Suc j')
        then have "j' < k" using \<open>j < Suc k\<close> by simp
        then show ?thesis using k(3) eff(2) [of j'] Suc by simp
      qed
    qed
    have "dispatch_ends interp (e, s) (Suc k)" using k(2) eff(2) by simp
    moreover have "(cmdState e', txBuffer s') =
        interp_after interp (rxBuffer s) (Suc (Suc k)) (cmdState e, txBuffer s)"
      using k(5) eff(4) [of "Suc k"] eff(5) by simp
    ultimately show ?thesis using k(1,4,6,7,8) nj eff(3,5,6,7)
      by (intro exI [of _ "Suc k"]) simp
  qed
qed

section \<open>The session task\<close>

text \<open>
  C2, as the code has it. The bytes before the first carriage return, delivered one at a
  time to the switch from cursor 0, are edited byte by byte: a backspace removes the last
  stored character (none at cursor 0), any other byte is stored while fewer than 255 are
  held and is dropped otherwise, so that a backspace after a dropped byte removes a stored
  character. Delivering them always returns and leaves the cursor at the length of the
  edited line and the edited line at the start of the buffer; whenever the processing of
  the carriage return that follows returns, the buffer starts with the edited line and
  the NUL after it.
\<close>

theorem line_assembler_edits:
  assumes "CLI_END_CHAR \<notin> set cs" and "rxIndex s = 0"
    and "length (rxBuffer s) = CLI_RX_BUFFER_SIZE"
  shows "\<exists>s1. cliTask_feed interp fuel cs (e, s) = Some (e, s1) \<and>
           unat (rxIndex s1) = length (edited_line cs) \<and>
           take (length (edited_line cs)) (rxBuffer s1) = edited_line cs \<and>
           length (edited_line cs) \<le> CLI_RX_BUFFER_SIZE - 1 \<and>
           (\<forall>e' s'. cliTask_feed interp fuel (cs @ [CLI_END_CHAR]) (e, s) = Some (e', s') \<longrightarrow>
              take (Suc (length (edited_line cs))) (rxBuffer s') =
                edited_line cs @ [CLI_NULL_CHAR])"
proof -
  let ?l = "edited_line cs"
  have "holds_line s []" using assms(2,3) by (simp add: holds_line_def)
  from cliTask_feed_line [OF this assms(1), of interp fuel e]
  obtain s1 where s1: "cliTask_feed interp fuel cs (e, s) = Some (e, s1)" "holds_line s1 ?l"
    by (auto simp: edited_line_def)
  have lt: "length ?l < length (rxBuffer s1)"
    using s1(2) by (simp add: holds_line_def CLI_RX_BUFFER_SIZE_def)
  have t: "take (Suc (length ?l)) ((rxBuffer s1)[length ?l := CLI_NULL_CHAR]) =
      ?l @ [CLI_NULL_CHAR]"
    using s1(2) lt by (auto simp: holds_line_def take_Suc_conv_app_nth)
  have cr: "take (Suc (length ?l)) (rxBuffer s') = ?l @ [CLI_NULL_CHAR]"
    if f: "cliTask_feed interp fuel (cs @ [CLI_END_CHAR]) (e, s) = Some (e', s')" for e' s'
  proof -
    let ?s0 = "s1\<lparr>rxChar := CLI_END_CHAR,
                   rxBuffer := (rxBuffer s1)[length ?l := CLI_NULL_CHAR]\<rparr>"
    have sw: "cliTask_switch interp fuel (e, s1\<lparr>rxChar := CLI_END_CHAR\<rparr>) = Some (e', s')"
      using f s1(1) by (simp add: cliTask_feed_append split: option.splits)
    from sw s1(2) obtain e1 s2 where d: "dispatch_loop interp fuel (e, ?s0) = Some (e1, s2)"
      and r: "s' = s2\<lparr>rxIndex := 0\<rparr>"
      by (auto simp: cliTask_switch_def holds_line_def split: option.splits)
    have "rxBuffer s2 = rxBuffer ?s0" using dispatch_loop_Some [OF d] by blast
    then show ?thesis using r t by simp
  qed
  show ?thesis using s1 cr by (auto simp: holds_line_def)
qed

theorem line_assembler_edits_witness:
  "CLI_END_CHAR \<notin> set [0x61, 0x62, CLI_BS_CHAR, 0x63] \<and>
   rxIndex cliInstance_init = 0 \<and>
   length (rxBuffer cliInstance_init) = CLI_RX_BUFFER_SIZE \<and>
   edited_line [0x61, 0x62, CLI_BS_CHAR, 0x63] = [0x61, 0x63] \<and>
   cliTask_feed (chunk_interp 1) 1 ([0x61, 0x62, CLI_BS_CHAR, 0x63] @ [CLI_END_CHAR])
     (quiet_env [] 0, cliInstance_init) \<noteq> None \<and>
   (\<exists>s1. cliTask_feed (chunk_interp 1) 1 [0x61, 0x62, CLI_BS_CHAR, 0x63]
            (quiet_env [] 0, cliInstance_init) = Some (quiet_env [] 0, s1) \<and>
      unat (rxIndex s1) = length (edited_line [0x61, 0x62, CLI_BS_CHAR, 0x63]) \<and>
      take (length (edited_line [0x61, 0x62, CLI_BS_CHAR, 0x63])) (rxBuffer s1) =
        edited_line [0x61, 0x62, CLI_BS_CHAR, 0x63] \<and>
      length (edited_line [0x61, 0x62, CLI_BS_CHAR, 0x63]) \<le> CLI_RX_BUFFER_SIZE - 1 \<and>
      (\<forall>e' s'. cliTask_feed (chunk_interp 1) 1 ([0x61, 0x62, CLI_BS_CHAR, 0x63] @ [CLI_END_CHAR])
                 (quiet_env [] 0, cliInstance_init) = Some (e', s') \<longrightarrow>
         take (Suc (length (edited_line [0x61, 0x62, CLI_BS_CHAR, 0x63]))) (rxBuffer s') =
           edited_line [0x61, 0x62, CLI_BS_CHAR, 0x63] @ [CLI_NULL_CHAR]))"
proof -
  have h1: "CLI_END_CHAR \<notin> set [0x61, 0x62, CLI_BS_CHAR, 0x63]"
    by (simp add: CLI_END_CHAR_def CLI_BS_CHAR_def)
  have h2: "rxIndex cliInstance_init = 0" by (simp add: cliInstance_init_def)
  have h3: "length (rxBuffer cliInstance_init) = CLI_RX_BUFFER_SIZE"
    by (simp add: cliInstance_init_def)
  have l: "edited_line [0x61, 0x62, CLI_BS_CHAR, 0x63] = [0x61, 0x63]"
    by (simp add: edited_line_def line_edit_def CLI_BS_CHAR_def CLI_RX_BUFFER_SIZE_def)
  have r: "cliTask_feed (chunk_interp 1) 1 ([0x61, 0x62, CLI_BS_CHAR, 0x63] @ [CLI_END_CHAR])
     (quiet_env [] 0, cliInstance_init) \<noteq> None"
    by code_simp
  show ?thesis
    by (intro conjI h1 h2 h3 l r line_assembler_edits [OF h1 h2 h3])
qed

text \<open>
  The claim as worded fails: after 256 letters and a backspace, applying the backspace
  and then truncating leaves 255 letters, while the buffer at the carriage return holds
  254 letters and the NUL.
\<close>

theorem line_truncation_counterexample:
  "CLI_END_CHAR \<notin> set overfull \<and>
   cliTask_feed (chunk_interp 1) 1 (overfull @ [CLI_END_CHAR])
     (quiet_env [] 0, cliInstance_init) \<noteq> None \<and>
   take (Suc (length (spec_line overfull)))
     (rxBuffer (snd (the (cliTask_feed (chunk_interp 1) 1 (overfull @ [CLI_END_CHAR])
        (quiet_env [] 0, cliInstance_init))))) \<noteq> spec_line overfull @ [CLI_NULL_CHAR]"
  by code_simp

text \<open>
  C4, as the code has it. In the Collecting state (\<open>FSM_INPUT\<close>), on a buffer that holds a
  C string, a pass of the machine moves to \<open>FSM_PROCESS\<close> exactly when that string
  contains a line feed (0x0A), and stays in \<open>FSM_INPUT\<close> otherwise. In particular,
  delivering the bytes \<open>1\<close>, \<open>2\<close>, \<open>3\<close>, \<open>4\<close> and a line feed to the switch from cursor 0
  leads the machine in one pass to \<open>FSM_PROCESS\<close> and in the next to \<open>FSM_LOG_OUT\<close>.
\<close>

theorem collecting_waits_for_line_feed:
  assumes "authState s = FSM_INPUT" and "0 \<in> set (rxBuffer s)"
  shows "authState (snd (auth_switch (e, s))) =
           (if 0x0A \<in> set (c_str (rxBuffer s)) then FSM_PROCESS else FSM_INPUT) \<and>
         (rxIndex s = 0 \<and> length (rxBuffer s) = CLI_RX_BUFFER_SIZE \<longrightarrow>
           (\<exists>st. cliTask_feed interp fuel [0x31, 0x32, 0x33, 0x34, 0x0A] (e, s) = Some st \<and>
                 authState (snd (auth_switch st)) = FSM_PROCESS \<and>
                 authState (snd (auth_switch (auth_switch st))) = FSM_LOG_OUT))"
proof -
  let ?s1 = "s\<lparr>rxBuffer := [0x31, 0x32, 0x33, 0x34, 0x0A] @ drop 5 (rxBuffer s),
               rxIndex := 5, rxChar := 0x0A\<rparr>"
  have a: "authState (snd (auth_switch (e, s))) =
           (if 0x0A \<in> set (c_str (rxBuffer s)) then FSM_PROCESS else FSM_INPUT)"
    using assms(1) by (simp add: auth_switch_at_FSM_INPUT)
  have p: "auth_switch (e, ?s1) = (e, ?s1\<lparr>authState := FSM_PROCESS\<rparr>)"
    using assms(1) by (simp add: auth_switch_at_FSM_INPUT c_str_def)
  have q: "authState (snd (auth_switch (e, ?s1\<lparr>authState := FSM_PROCESS\<rparr>))) = FSM_LOG_OUT"
    by (simp add: auth_switch_at_FSM_PROCESS c_str_def PASSWORD_bytes)
  have "rxIndex s = 0 \<and> length (rxBuffer s) = CLI_RX_BUFFER_SIZE \<longrightarrow>
           (\<exists>st. cliTask_feed interp fuel [0x31, 0x32, 0x33, 0x34, 0x0A] (e, s) = Some st \<and>
                 authState (snd (auth_switch st)) = FSM_PROCESS \<and>
                 authState (snd (auth_switch (auth_switch st))) = FSM_LOG_OUT)"
  proof (intro impI, elim conjE)
    assume h: "rxIndex s = 0" "length (rxBuffer s) = CLI_RX_BUFFER_SIZE"
    have f: "cliTask_feed interp fuel [0x31, 0x32, 0x33, 0x34, 0x0A] (e, s) = Some (e, ?s1)"
      using h by (rule feed_password_lf)
    show "\<exists>st. cliTask_feed interp fuel [0x31, 0x32, 0x33, 0x34, 0x0A] (e, s) = Some st \<and>
                 authState (snd (auth_switch st)) = FSM_PROCESS \<and>
                 authState (snd (auth_switch (auth_switch st))) = FSM_LOG_OUT"
      unfolding f using p q by simp
  qed
  with a show ?thesis by blast
qed

theorem collecting_waits_for_line_feed_witness:
  "authState (cliInstance_init\<lparr>authState := FSM_INPUT\<rparr>) = FSM_INPUT \<and>
   0 \<in> set (rxBuffer (cliInstance_init\<lparr>authState := FSM_INPUT\<rparr>)) \<and>
   rxIndex (cliInstance_init\<lparr>authState := FSM_INPUT\<rparr>) = 0 \<and>
   length (rxBuffer (cliInstance_init\<lparr>authState := FSM_INPUT\<rparr>)) = CLI_RX_BUFFER_SIZE \<and>
   authState (snd (auth_switch
     (quiet_env [] (0::nat), cliInstance_init\<lparr>authState := FSM_INPUT\<rparr>))) = FSM_INPUT \<and>
   (\<exists>st. cliTask_feed (chunk_interp 1) 1 [0x31, 0x32, 0x33, 0x34, 0x0A]
           (quiet_env [] 0, cliInstance_init\<lparr>authState := FSM_INPUT\<rparr>) = Some st \<and>
         authState (snd (auth_switch st)) = FSM_PROCESS \<and>
         authState (snd (auth_switch (auth_switch st))) = FSM_LOG_OUT)"
proof -
  let ?s = "cliInstance_init\<lparr>authState := FSM_INPUT\<rparr>"
  have h1: "authState ?s = FSM_INPUT" by simp
  have h2: "0 \<in> set (rxBuffer ?s)" by (simp add: cliInstance_init_def CLI_RX_BUFFER_SIZE_def)
  from collecting_waits_for_line_feed
    [OF h1 h2, of "quiet_env [] 0" "chunk_interp 1" 1] h2
  show ?thesis by (simp add: cliInstance_init_def c_str_def CLI_RX_BUFFER_SIZE_def)
qed

text \<open>
  The claim as worded fails: the bytes \<open>1\<close>, \<open>2\<close>, \<open>3\<close>, \<open>4\<close> and a carriage return,
  delivered in the Collecting state, leave the completed line \<open>1234\<close> in the buffer, and
  a pass of the machine then changes nothing: the state stays \<open>FSM_INPUT\<close>.
\<close>

theorem collecting_carriage_return_counterexample:
  "cliTask_feed (chunk_interp 1) 1 [0x31, 0x32, 0x33, 0x34, 0x0D]
     (quiet_env [] 0, cliInstance_init\<lparr>authState := FSM_INPUT\<rparr>) \<noteq> None \<and>
   c_str (rxBuffer (snd (the (cliTask_feed (chunk_interp 1) 1 [0x31, 0x32, 0x33, 0x34, 0x0D]
     (quiet_env [] 0, cliInstance_init\<lparr>authState := FSM_INPUT\<rparr>))))) = PASSWORD \<and>
   authState (snd (auth_switch (the (cliTask_feed (chunk_interp 1) 1
     [0x31, 0x32, 0x33, 0x34, 0x0D]
     (quiet_env [] 0, cliInstance_init\<lparr>authState := FSM_INPUT\<rparr>))))) = FSM_INPUT \<and>
   auth_switch (the (cliTask_feed (chunk_interp 1) 1 [0x31, 0x32, 0x33, 0x34, 0x0D]
     (quiet_env [] 0, cliInstance_init\<lparr>authState := FSM_INPUT\<rparr>))) =
     the (cliTask_feed (chunk_interp 1) 1 [0x31, 0x32, 0x33, 0x34, 0x0D]
       (quiet_env [] 0, cliInstance_init\<lparr>authState := FSM_INPUT\<rparr>))"
  by code_simp

text \<open>
  C7. In the \<open>CLI_END_CHAR\<close> branch the dispatch loop ends exactly with the first pass in
  which the interpreter reports no more output (\<open>pdFALSE\<close>) or the status event consumed
  is \<open>CLI_MSG_ERR\<close>: with fuel for \<open>fuel\<close> passes the branch returns when such a pass is
  among them and not otherwise. When it returns after pass \<open>k\<close>, the interpreter has been
  invoked and the transport written \<open>k + 1\<close> times, so nothing is written after the pass
  that consumed the failure; both direction pins are back at the receive level and the
  cursor is 0.
\<close>

theorem dispatch_loop_ends_exactly:
  assumes "rxChar s = CLI_END_CHAR"
  shows "let line = (e, s\<lparr>rxBuffer := (rxBuffer s)[unat (rxIndex s) := CLI_NULL_CHAR]\<rparr>) in
         case cliTask_switch interp fuel (e, s) of
           None \<Rightarrow> \<forall>k<fuel. \<not> dispatch_ends interp line k
         | Some (e', s') \<Rightarrow>
             \<exists>k<fuel. dispatch_ends interp line k \<and> (\<forall>j<k. \<not> dispatch_ends interp line j) \<and>
               length (ioLog e') = length (ioLog e) + Suc k \<and>
               cmdState e' =
                 fst (interp_after interp (rxBuffer (snd line)) (Suc k) (cmdState e, txBuffer s)) \<and>
               \<not> rxEnPin e' \<and> \<not> txEnPin e' \<and> rxIndex s' = 0"
proof -
  let ?s0 = "s\<lparr>rxBuffer := (rxBuffer s)[unat (rxIndex s) := CLI_NULL_CHAR]\<rparr>"
  show ?thesis
  proof (cases "dispatch_loop interp fuel (e, ?s0)")
    case None
    then have "cliTask_switch interp fuel (e, s) = None"
      using assms by (simp add: cliTask_switch_def)
    then show ?thesis using dispatch_loop_None [OF None] by simp
  next
    case (Some r)
    obtain e1 s1 where r: "r = (e1, s1)" by (cases r)
    have sw: "cliTask_switch interp fuel (e, s) =
        Some (cliSetUartDirectionMode UART_RX_MODE e1, s1\<lparr>rxIndex := 0\<rparr>)"
      using assms Some r by (simp add: cliTask_switch_def)
    from dispatch_loop_Some [OF Some [unfolded r]]
    obtain k where k: "k < fuel" "dispatch_ends interp (e, ?s0) k"
      "\<forall>j<k. \<not> dispatch_ends interp (e, ?s0) j"
      "length (ioLog e1) = length (ioLog e) + Suc k"
      "(cmdState e1, txBuffer s1) =
         interp_after interp (rxBuffer ?s0) (Suc k) (cmdState e, txBuffer ?s0)"
      by blast
    have "txBuffer ?s0 = txBuffer s" by simp
    then have "cmdState e1 =
        fst (interp_after interp (rxBuffer ?s0) (Suc k) (cmdState e, txBuffer s))"
      using k(5) by (metis fst_conv)
    then show ?thesis
      unfolding sw Let_def using k(1-4)
      by (auto simp: cliSetUartDirectionMode_def intro!: exI [of _ k])
  qed
qed

theorem dispatch_loop_ends_exactly_witness:
  "rxChar cr_session = CLI_END_CHAR \<and>
   cliTask_switch (chunk_interp 3) 5
     (quiet_env [Some CLI_TX_COMPLETE, Some CLI_MSG_ERR] 0, cr_session) \<noteq> None \<and>
   length (ioLog (fst (the (cliTask_switch (chunk_interp 3) 5
     (quiet_env [Some CLI_TX_COMPLETE, Some CLI_MSG_ERR] 0, cr_session))))) = 2 \<and>
   (let line = (quiet_env [Some CLI_TX_COMPLETE, Some CLI_MSG_ERR] (0::nat),
                cr_session\<lparr>rxBuffer :=
                  (rxBuffer cr_session)[unat (rxIndex cr_session) := CLI_NULL_CHAR]\<rparr>) in
    case cliTask_switch (chunk_interp 3) 5
           (quiet_env [Some CLI_TX_COMPLETE, Some CLI_MSG_ERR] 0, cr_session) of
      None \<Rightarrow> \<forall>k<5. \<not> dispatch_ends (chunk_interp 3) line k
    | Some (e', s') \<Rightarrow>
        \<exists>k<5. dispatch_ends (chunk_interp 3) line k \<and>
          (\<forall>j<k. \<not> dispatch_ends (chunk_interp 3) line j) \<and>
          length (ioLog e') =
            length (ioLog (quiet_env [Some CLI_TX_COMPLETE, Some CLI_MSG_ERR] (0::nat))) + Suc k \<and>
          cmdState e' =
            fst (interp_after (chunk_interp 3) (rxBuffer (snd line)) (Suc k)
                   (cmdState (quiet_env [Some CLI_TX_COMPLETE, Some CLI_MSG_ERR] (0::nat)),
                    txBuffer cr_session)) \<and>
          \<not> rxEnPin e' \<and> \<not> txEnPin e' \<and> rxIndex s' = 0)"
proof -
  have h: "rxChar cr_session = CLI_END_CHAR" by (simp add: cr_session_def)
  have r: "cliTask_switch (chunk_interp 3) 5
     (quiet_env [Some CLI_TX_COMPLETE, Some CLI_MSG_ERR] 0, cr_session) \<noteq> None"
    by code_simp
  have n: "length (ioLog (fst (the (cliTask_switch (chunk_interp 3) 5
     (quiet_env [Some CLI_TX_COMPLETE, Some CLI_MSG_ERR] 0, cr_session))))) = 2"
    by code_simp
  show ?thesis by (intro conjI h r n dispatch_loop_ends_exactly [OF h])
qed

text \<open>
  C8, as the code has it. When the wait of a pass ends with no status event, the status
  byte keeps its initial value 0 and the end test rests on the interpreter alone: the
  \<open>break\<close> is taken exactly when the interpreter returned \<open>pdFALSE\<close>. When it reported more
  output, the loop goes on to its next pass, and whenever it then ends it has invoked the
  interpreter and written to the transport at least twice.
\<close>

theorem dispatch_timeout_continues:
  assumes "status_event (txEvents e) 0 = None"
  shows "snd (dispatch_pass interp (e, s)) =
           (interp_return interp (rxBuffer s) 0 (cmdState e, txBuffer s) = pdFALSE) \<and>
         (interp_return interp (rxBuffer s) 0 (cmdState e, txBuffer s) \<noteq> pdFALSE \<longrightarrow>
            dispatch_loop interp (Suc n) (e, s) =
              dispatch_loop interp n (fst (dispatch_pass interp (e, s))) \<and>
            (\<forall>e' s'. dispatch_loop interp (Suc n) (e, s) = Some (e', s') \<longrightarrow>
               (\<exists>k\<ge>1. length (ioLog e') = length (ioLog e) + Suc k \<and>
                  (cmdState e', txBuffer s') =
                    interp_after interp (rxBuffer s) (Suc k) (cmdState e, txBuffer s))))"
proof -
  obtain e1 s1 stop where p: "dispatch_pass interp (e, s) = ((e1, s1), stop)"
    by (metis surj_pair)
  have e0: "dispatch_ends interp (e, s) 0 =
      (interp_return interp (rxBuffer s) 0 (cmdState e, txBuffer s) = pdFALSE)"
    using assms by (simp add: dispatch_ends_def)
  have a: "snd (dispatch_pass interp (e, s)) =
           (interp_return interp (rxBuffer s) 0 (cmdState e, txBuffer s) = pdFALSE)"
    using dispatch_pass_effect(1) [OF p] p e0 by simp
  have b: "dispatch_loop interp (Suc n) (e, s) =
              dispatch_loop interp n (fst (dispatch_pass interp (e, s)))"
    if "interp_return interp (rxBuffer s) 0 (cmdState e, txBuffer s) \<noteq> pdFALSE"
    using that a p by simp
  have c: "\<exists>k\<ge>1. length (ioLog e') = length (ioLog e) + Suc k \<and>
                  (cmdState e', txBuffer s') =
                    interp_after interp (rxBuffer s) (Suc k) (cmdState e, txBuffer s)"
    if n0: "interp_return interp (rxBuffer s) 0 (cmdState e, txBuffer s) \<noteq> pdFALSE"
      and l: "dispatch_loop interp (Suc n) (e, s) = Some (e', s')" for e' s'
  proof -
    from dispatch_loop_Some [OF l] obtain k where k: "dispatch_ends interp (e, s) k"
      "length (ioLog e') = length (ioLog e) + Suc k"
      "(cmdState e', txBuffer s') =
         interp_after interp (rxBuffer s) (Suc k) (cmdState e, txBuffer s)"
      by blast
    have "k \<noteq> 0" using k(1) e0 n0 by (cases k) auto
    then have "1 \<le> k" by simp
    then show ?thesis using k(2,3) by blast
  qed
  show ?thesis using a b c by blast
qed

theorem dispatch_timeout_continues_witness:
  "status_event (txEvents (quiet_env [] (0::nat))) 0 = None \<and>
   interp_return (chunk_interp 2) (rxBuffer cr_session) 0
     (cmdState (quiet_env [] (0::nat)), txBuffer cr_session) \<noteq> pdFALSE \<and>
   \<not> snd (dispatch_pass (chunk_interp 2) (quiet_env [] 0, cr_session)) \<and>
   dispatch_loop (chunk_interp 2) (Suc 4) (quiet_env [] 0, cr_session) =
     dispatch_loop (chunk_interp 2) 4
       (fst (dispatch_pass (chunk_interp 2) (quiet_env [] 0, cr_session))) \<and>
   (\<exists>e' s'. dispatch_loop (chunk_interp 2) (Suc 4) (quiet_env [] 0, cr_session) = Some (e', s') \<and>
      (\<exists>k\<ge>1. length (ioLog e') = length (ioLog (quiet_env [] (0::nat))) + Suc k \<and>
         (cmdState e', txBuffer s') =
           interp_after (chunk_interp 2) (rxBuffer cr_session) (Suc k)
             (cmdState (quiet_env [] (0::nat)), txBuffer cr_session)))"
proof -
  have h: "status_event (txEvents (quiet_env [] (0::nat))) 0 = None"
    by (simp add: quiet_env_def status_event_def)
  have n0: "interp_return (chunk_interp 2) (rxBuffer cr_session) 0
     (cmdState (quiet_env [] (0::nat)), txBuffer cr_session) \<noteq> pdFALSE"
    by (simp add: interp_return_def chunk_interp_def pdTRUE_def pdFALSE_def quiet_env_def)
  have "dispatch_loop (chunk_interp 2) (Suc 4) (quiet_env [] 0, cr_session) \<noteq> None"
    by code_simp
  then obtain e' s' where
    r: "dispatch_loop (chunk_interp 2) (Suc 4) (quiet_env [] 0, cr_session) = Some (e', s')"
    by auto
  from dispatch_timeout_continues [OF h, of "chunk_interp 2" cr_session 4] n0 r h
  show ?thesis by auto
qed

text \<open>
  The claim as worded fails: a command of two chunks whose first wait ends with no
  status event is not aborted; the interpreter is invoked a second time and a second
  write is made before the branch returns.
\<close>

theorem dispatch_timeout_counterexample:
  "status_event (txEvents (quiet_env [] (0::nat))) 0 = None \<and>
   cliTask_switch (chunk_interp 2) 5 (quiet_env [] 0, cr_session) \<noteq> None \<and>
   length (ioLog (fst (the (cliTask_switch (chunk_interp 2) 5 (quiet_env [] 0, cr_session))))) = 2 \<and>
   cmdState (fst (the (cliTask_switch (chunk_interp 2) 5 (quiet_env [] 0, cr_session)))) = 2"
  by code_simp

section \<open>Startup\<close>

text \<open>
  C3. The code gives no negative status to the first failure kind: when the transport
  descriptor is unavailable (\<open>usart_async_get_io_descriptor\<close> fails or stores NULL),
  \<open>CliStartup\<close> leaves the loop with \<open>status\<close> still 0 and returns 0, the status of a
  startup in which every step succeeds. It makes no call of \<open>xTaskCreate\<close> then.
\<close>

theorem CliStartup_descriptor_failure_returns_0:
  assumes "ioResult r \<noteq> ERR_NONE \<or> ioDescriptor r = None"
  shows "fst (CliStartup r) = 0 \<and> fst (CliStartup r) = fst (CliStartup startup_all_ok) \<and>
         TaskCreate \<notin> set (snd (CliStartup r))"
  using assms by (auto simp: CliStartup_def startup_all_ok_def ERR_NONE_def pdPASS_def Let_def)

theorem CliStartup_descriptor_failure_returns_0_witness:
  "ioDescriptor (startup_all_ok\<lparr>ioResult := - 1, ioDescriptor := None\<rparr>) = None \<and>
   fst (CliStartup (startup_all_ok\<lparr>ioResult := - 1, ioDescriptor := None\<rparr>)) = 0 \<and>
   fst (CliStartup (startup_all_ok\<lparr>ioResult := - 1, ioDescriptor := None\<rparr>)) =
     fst (CliStartup startup_all_ok) \<and>
   TaskCreate \<notin> set (snd (CliStartup (startup_all_ok\<lparr>ioResult := - 1, ioDescriptor := None\<rparr>)))"
proof -
  have n: "ioDescriptor (startup_all_ok\<lparr>ioResult := - 1, ioDescriptor := None\<rparr>) = None"
    by simp
  then have h:
    "ioResult (startup_all_ok\<lparr>ioResult := - 1, ioDescriptor := None\<rparr>) \<noteq> ERR_NONE \<or>
     ioDescriptor (startup_all_ok\<lparr>ioResult := - 1, ioDescriptor := None\<rparr>) = None"
    by (rule disjI2)
  from n CliStartup_descriptor_failure_returns_0 [OF h] show ?thesis by (rule conjI)
qed

text \<open>
  The other four failure kinds get the statuses -1, -2, -3 and -4, in the order of the
  steps, and the first three of them return before \<open>xTaskCreate\<close> is called.
\<close>

lemma CliStartup_later_failures:
  assumes "ioResult r = ERR_NONE" "ioDescriptor r \<noteq> None"
  shows "fst (CliStartup r) =
     (if rxQueue r = None \<or> txQueue r = None then - 1
      else if rxCbStatus r \<noteq> ERR_NONE \<or> txCbStatus r \<noteq> ERR_NONE \<or> errCbStatus r \<noteq> ERR_NONE
        then - 2
      else if uartEnableStatus r \<noteq> ERR_NONE then - 3
      else if taskStatus r \<noteq> pdPASS then - 4 else 0)"
    and "fst (CliStartup r) \<in> {- 1, - 2, - 3} \<Longrightarrow> TaskCreate \<notin> set (snd (CliStartup r))"
  using assms by (auto simp: CliStartup_def Let_def split: if_splits)

section \<open>Command callbacks\<close>

text \<open>
  C10. The bound of the \<open>hello\<close> callback is off by one: with a buffer of exactly
  \<open>strlen(hello)\<close> = 14 bytes the length test lets the copy through, and \<open>strcpy\<close> writes the
  14 characters into the buffer and the terminating NUL at offset 14, the first byte
  behind the buffer; 15 bytes are written where the capacity is 14. The callback returns
  \<open>pdFALSE\<close>.
\<close>

theorem hello_callback_writes_past_buffer:
  assumes "xWriteBufferLen = strlen_c hello"
  shows "\<exists>m'. cliCallbackHelloCommand (Some m) xWriteBufferLen cmd = (pdFALSE, Some m') \<and>
              m' xWriteBufferLen = 0 \<and> (\<forall>i<xWriteBufferLen. m' i = hello ! i)"
  using assms by (simp add: cliCallbackHelloCommand_def strcpy_c_def strlen_hello)

theorem hello_callback_writes_past_buffer_witness:
  "(14::nat) = strlen_c hello \<and>
   (\<lambda>_. 0xFF :: byte) 14 \<noteq> 0 \<and>
   fst (cliCallbackHelloCommand (Some (\<lambda>_. 0xFF)) 14 []) = pdFALSE \<and>
   the (snd (cliCallbackHelloCommand (Some (\<lambda>_. 0xFF)) 14 [])) 14 = 0"
proof -
  have h: "(14::nat) = strlen_c hello" by (simp add: strlen_hello)
  from hello_callback_writes_past_buffer [OF h, of "\<lambda>_. 0xFF" "[]"] h show ?thesis by auto
qed

text \<open>The \<open>version\<close> callback has the same bound: 21 bytes are written at capacity 20.\<close>

lemma version_callback_writes_past_buffer:
  "the (snd (cliCallbackVersionCommand (Some (\<lambda>_. 0xFF)) 20 [])) 20 = 0"
  by (simp add: cliCallbackVersionCommand_def strcpy_c_def strlen_version)

text \<open>
  Within the capacity the callbacks behave as described: a NULL buffer, a capacity of 0
  or a message longer than the capacity leave the memory as it was, and the result is
  \<open>pdFALSE\<close> in every case.
\<close>

lemma hello_callback_guards:
  "fst (cliCallbackHelloCommand b n cmd) = pdFALSE"
  "cliCallbackHelloCommand None n cmd = (pdFALSE, None)"
  "n = 0 \<or> n < strlen_c hello \<Longrightarrow> cliCallbackHelloCommand (Some m) n cmd = (pdFALSE, Some m)"
  by (auto simp: cliCallbackHelloCommand_def split: option.splits)

end
